theory Spec2Isabelle
  imports Complex_Main "HOL-Library.Log_Nat"
begin

section \<open>Retail store ledger (main.py)\<close>

subsection \<open>Time\<close>

text \<open>
  A naive \<^verbatim>\<open>datetime\<close> lies between \<^verbatim>\<open>datetime.min\<close> (0001-01-01 00:00:00) and
  \<^verbatim>\<open>datetime.max\<close> (the last microsecond of 9999-12-31), so the type is the range of
  microseconds since \<^verbatim>\<open>datetime.min\<close>. The difference of two datetimes is a
  \<^verbatim>\<open>timedelta\<close>, which Python keeps normalised with \<^verbatim>\<open>0 <= seconds < 86400\<close>, so that
  \<^verbatim>\<open>.days\<close> is the floor of the difference divided by one day. Subtracting a
  \<^verbatim>\<open>timedelta\<close> from a datetime raises \<^verbatim>\<open>OverflowError\<close> when the result leaves the
  range.
\<close>

datatype error =
    ValueError string
  | OverflowError string
  | IndexError string
  | StatisticsError string

definition day_us :: int where
  "day_us = 86400000000"

definition datetime_max :: int where
  "datetime_max = 3652059 * day_us - 1"

typedef datetime = "{t :: int. 0 \<le> t \<and> t \<le> datetime_max}"
  morphisms microseconds datetime_of
  by (rule exI [of _ 0]) (simp add: datetime_max_def day_us_def)

definition timedelta_days :: "datetime \<Rightarrow> datetime \<Rightarrow> int" where
  \<comment> \<open>\<^verbatim>\<open>(a - b).days\<close>\<close>
  "timedelta_days a b = (microseconds a - microseconds b) div day_us"

definition sub_days :: "datetime \<Rightarrow> int \<Rightarrow> error + datetime" where
  \<comment> \<open>\<^verbatim>\<open>d - timedelta(days=n)\<close>\<close>
  "sub_days d n =
     (let r = microseconds d - n * day_us
      in if r < 0 \<or> datetime_max < r then Inl (OverflowError ''date value out of range'')
         else Inr (datetime_of r))"

subsection \<open>Numbers\<close>

text \<open>
  \<^verbatim>\<open>statistics.mean\<close> of integers computes the exact fraction \<^verbatim>\<open>total / n\<close> and converts
  it: to an \<^verbatim>\<open>int\<close> when the denominator is 1, otherwise to a \<^verbatim>\<open>float\<close> by the true
  division \<^verbatim>\<open>numerator / denominator\<close> of two integers. That division is correctly
  rounded: the result is the binary64 value nearest the quotient, ties to the even
  significand, and it raises \<^verbatim>\<open>OverflowError\<close> when that value is \<open>2 ^ 1024\<close> or more.
  A float is represented by the rational it denotes.
\<close>

datatype number = PyInt int | PyFloat rat

definition py_value :: "number \<Rightarrow> rat" where
  "py_value v = (case v of PyInt i \<Rightarrow> of_int i | PyFloat f \<Rightarrow> f)"

definition floor_log2 :: "int \<Rightarrow> int \<Rightarrow> int" where
  \<comment> \<open>the exponent \<open>e\<close> with \<open>2 ^ e \<le> a / b < 2 ^ (e + 1)\<close>, for positive \<open>a\<close> and \<open>b\<close>\<close>
  "floor_log2 a b =
     (let d = bitlen a - bitlen b
      in if (if 0 \<le> d then b * 2 ^ nat d \<le> a else b \<le> a * 2 ^ nat (- d)) then d else d - 1)"

definition round_half_even :: "rat \<Rightarrow> int" where
  "round_half_even x =
     (let f = \<lfloor>x\<rfloor>; r = x - of_int f
      in if r < 1 / 2 then f else if 1 / 2 < r then f + 1 else if even f then f else f + 1)"

definition true_divide :: "int \<Rightarrow> int \<Rightarrow> error + rat" where
  \<comment> \<open>\<^verbatim>\<open>a / b\<close> for integers, \<open>b > 0\<close>: 53 significant bits, or a multiple of
      \<open>2 ^ - 1074\<close> in the subnormal range\<close>
  "true_divide a b =
     (if a = 0 then Inr 0
      else
        let x = of_int \<bar>a\<bar> / of_int b;
            e = floor_log2 \<bar>a\<bar> b;
            q = max (e - 52) (- 1074);
            m = round_half_even (x / 2 powi q);
            f = of_int m * 2 powi q
        in if 2 ^ 1024 \<le> f
           then Inl (OverflowError ''integer division result too large for a float'')
           else Inr (of_int (sgn a) * f))"

subsection \<open>Data models\<close>

record ShelfTracking =
  date_received :: datetime
  date_displayed :: datetime

record Transaction =
  transaction_id :: string
  storeitem_name :: string
  location :: string
  quantity_change :: int
  timestamp :: datetime
  transaction_type :: string

record StoreItem =
  name :: string
  upc :: string
  quantity :: int
  category :: string
  location :: string
  shelf_tracking :: ShelfTracking
  transactions :: "Transaction list"
  sold_durations :: "int list"

definition new_StoreItem ::
  "string \<Rightarrow> string \<Rightarrow> int \<Rightarrow> string \<Rightarrow> string \<Rightarrow> ShelfTracking \<Rightarrow> StoreItem" where
  \<comment> \<open>the dataclass constructor as the factory calls it: both lists default to empty\<close>
  "new_StoreItem n u q c l s =
     \<lparr>name = n, upc = u, quantity = q, category = c, location = l, shelf_tracking = s,
      transactions = [], sold_durations = []\<rparr>"

subsection \<open>Mutation operations\<close>

text \<open>
  A method mutates \<^verbatim>\<open>self\<close> and either returns or raises, so it is modelled as a
  function to a pair: the outcome (\<open>Inl\<close> the exception, \<open>Inr\<close> the returned value)
  and the item as the call leaves it. What the environment supplies during a call
  (\<^verbatim>\<open>datetime.now()\<close>, \<^verbatim>\<open>str(uuid.uuid4())\<close>) is a parameter, one per read.
  The calls to \<^verbatim>\<open>st.toast\<close> and \<^verbatim>\<open>print\<close> belong to the presentation layer and
  are left out.
\<close>

definition record_transaction ::
  "StoreItem \<Rightarrow> int \<Rightarrow> string \<Rightarrow> string \<Rightarrow> datetime \<Rightarrow> Transaction \<times> StoreItem" where
  "record_transaction self qty_change ttype uuid4 now =
     (let txn = \<lparr>transaction_id = uuid4,
                 storeitem_name = name self,
                 location = StoreItem.location self,
                 quantity_change = qty_change,
                 timestamp = now,
                 transaction_type = ttype\<rparr>
      in (txn, self\<lparr>transactions := transactions self @ [txn]\<rparr>))"

fun append_times :: "nat \<Rightarrow> int \<Rightarrow> int list \<Rightarrow> int list" where
  \<comment> \<open>\<^verbatim>\<open>for _ in range(n): xs.append(v)\<close>\<close>
  "append_times 0 v xs = xs"
| "append_times (Suc n) v xs = append_times n v (xs @ [v])"

definition purchase ::
  "StoreItem \<Rightarrow> int \<Rightarrow> datetime \<Rightarrow> string \<Rightarrow> datetime \<Rightarrow> (error + Transaction) \<times> StoreItem" where
  "purchase self qty sell_date uuid4 now =
     (if qty > quantity self
      then (Inl (ValueError ''Not enough inventory to purchase''), self)
      else
        let days_on_shelf =
              max 0 (timedelta_days sell_date (date_displayed (shelf_tracking self)));
            self1 = self\<lparr>sold_durations :=
                       append_times (nat qty) days_on_shelf (sold_durations self)\<rparr>;
            self2 = self1\<lparr>quantity := quantity self1 - qty\<rparr>
        in case record_transaction self2 (- qty) ''purchase'' uuid4 now of
             (txn, self3) \<Rightarrow> (Inr txn, self3))"

fun pop_times :: "nat \<Rightarrow> int list \<Rightarrow> error + int list" where
  \<comment> \<open>\<^verbatim>\<open>for _ in range(n): xs.pop()\<close>; \<^verbatim>\<open>pop\<close> raises on an empty list\<close>
  "pop_times 0 xs = Inr xs"
| "pop_times (Suc n) xs =
     (if xs = [] then Inl (IndexError ''pop from empty list'') else pop_times n (butlast xs))"

definition return_item ::
  "StoreItem \<Rightarrow> int \<Rightarrow> string \<Rightarrow> datetime \<Rightarrow> (error + Transaction) \<times> StoreItem" where
  "return_item self qty uuid4 now =
     (case pop_times (nat (min qty (int (length (sold_durations self)))))
             (sold_durations self) of
        Inl e \<Rightarrow> (Inl e, self\<lparr>sold_durations := []\<rparr>)
      | Inr ds \<Rightarrow>
          let self1 = self\<lparr>sold_durations := ds\<rparr>;
              self2 = self1\<lparr>quantity := quantity self1 + qty\<rparr>
          in case record_transaction self2 qty ''return'' uuid4 now of
               (txn, self3) \<Rightarrow> (Inr txn, self3))"

definition replenish ::
  "StoreItem \<Rightarrow> int \<Rightarrow> string \<Rightarrow> datetime \<Rightarrow> (error + Transaction) \<times> StoreItem" where
  "replenish self qty uuid4 now =
     (let self1 = self\<lparr>quantity := quantity self + qty\<rparr>
      in case record_transaction self1 qty ''replenish'' uuid4 now of
           (txn, self2) \<Rightarrow> (Inr txn, self2))"

definition statistics_mean :: "int list \<Rightarrow> error + number" where
  \<comment> \<open>\<^verbatim>\<open>statistics.mean\<close> on a list of \<^verbatim>\<open>int\<close>: \<open>num / den\<close> is the fraction
      \<^verbatim>\<open>total / n\<close> in lowest terms\<close>
  "statistics_mean data =
     (let n = length data
      in if n < 1 then Inl (StatisticsError ''mean requires at least one data point'')
         else
           let total = sum_list data;
               g = gcd total (int n);
               num = total div g;
               den = int n div g
           in if den = 1 then Inr (PyInt num)
              else case true_divide num den of
                     Inl e \<Rightarrow> Inl e
                   | Inr f \<Rightarrow> Inr (PyFloat f))"

definition average_days_to_sell :: "StoreItem \<Rightarrow> error + number" where
  "average_days_to_sell self =
     (if sold_durations self \<noteq> [] then statistics_mean (sold_durations self)
      else Inr (PyInt 0))"

definition advance_day :: "StoreItem \<Rightarrow> (error + unit) \<times> StoreItem" where
  \<comment> \<open>the body of the "Simulate Day Passing" loop:
      \<^verbatim>\<open>item.shelf_tracking.date_displayed -= timedelta(days=1)\<close>\<close>
  "advance_day item =
     (case sub_days (date_displayed (shelf_tracking item)) 1 of
        Inl e \<Rightarrow> (Inl e, item)
      | Inr d \<Rightarrow> (Inr (), item\<lparr>shelf_tracking := (shelf_tracking item)\<lparr>date_displayed := d\<rparr>\<rparr>))"

subsection \<open>Sequences of operations on one item\<close>

text \<open>
  The sidebar applies one operation per click to the selected item and catches what it
  raises, so a session is a list of operations, each applied to the item as the one
  before left it. An operation carries the values its call reads from the environment.
\<close>

datatype op =
    Purchase int datetime string datetime
  | Return int string datetime
  | Replenish int string datetime
  | AdvanceDay

fun apply_op :: "StoreItem \<Rightarrow> op \<Rightarrow> StoreItem" where
  "apply_op item (Purchase qty sell_date uuid4 now) = snd (purchase item qty sell_date uuid4 now)"
| "apply_op item (Return qty uuid4 now) = snd (return_item item qty uuid4 now)"
| "apply_op item (Replenish qty uuid4 now) = snd (replenish item qty uuid4 now)"
| "apply_op item AdvanceDay = snd (advance_day item)"

fun apply_ops :: "StoreItem \<Rightarrow> op list \<Rightarrow> StoreItem" where
  "apply_ops item [] = item"
| "apply_ops item (x # xs) = apply_ops (apply_op item x) xs"

fun valid_op :: "StoreItem \<Rightarrow> op \<Rightarrow> bool" where
  \<comment> \<open>the preconditions of section 4.1 of the specification\<close>
  "valid_op item (Purchase qty _ _ _) = (1 \<le> qty \<and> qty \<le> quantity item)"
| "valid_op item (Return qty _ _) = (1 \<le> qty)"
| "valid_op item (Replenish qty _ _) = (1 \<le> qty)"
| "valid_op item AdvanceDay = True"

fun valid_ops :: "StoreItem \<Rightarrow> op list \<Rightarrow> bool" where
  "valid_ops item [] = True"
| "valid_ops item (x # xs) = (valid_op item x \<and> valid_ops (apply_op item x) xs)"

subsection \<open>Store generation\<close>

text \<open>
  \<^verbatim>\<open>random.randint(a, b)\<close> is a function of the generator's raw output \<open>r\<close>: every
  value of the closed range is reached by some \<open>r\<close>, and an empty range raises.
\<close>

definition randint :: "int \<Rightarrow> int \<Rightarrow> nat \<Rightarrow> error + int" where
  "randint a b r =
     (if b < a then Inl (ValueError ''empty range for randrange()'')
      else Inr (a + int r mod (b - a + 1)))"

definition bind :: "error + 'a \<Rightarrow> ('a \<Rightarrow> error + 'b) \<Rightarrow> error + 'b" where
  \<comment> \<open>sequencing: an exception raised by the first step propagates\<close>
  "bind m f = (case m of Inl e \<Rightarrow> Inl e | Inr x \<Rightarrow> f x)"

record shelf_draw =
  received_draw :: nat
  displayed_draw :: nat
  received_now :: datetime
  displayed_now :: datetime

definition random_shelf_tracking :: "shelf_draw \<Rightarrow> error + ShelfTracking" where
  "random_shelf_tracking e =
     bind (randint 8 12 (received_draw e)) (\<lambda>days_received.
     bind (randint 1 days_received (displayed_draw e)) (\<lambda>days_displayed.
     bind (sub_days (received_now e) days_received) (\<lambda>received.
     bind (sub_days (displayed_now e) days_displayed) (\<lambda>displayed.
     Inr \<lparr>date_received = received, date_displayed = displayed\<rparr>))))"

record sale_draw =
  qty_draw :: nat
  sell_now :: datetime
  txn_uuid :: string
  txn_now :: datetime

fun simulate_sales ::
  "(nat \<Rightarrow> sale_draw) \<Rightarrow> nat \<Rightarrow> (StoreItem \<times> int \<times> int) list \<Rightarrow> error + StoreItem list" where
  \<comment> \<open>\<^verbatim>\<open>for item, rng in zip(...): item.purchase(random.randint(*rng))\<close>; the result
      lists the items as the loop leaves them\<close>
  "simulate_sales sa k [] = Inr []"
| "simulate_sales sa k ((item, lo, hi) # rest) =
     bind (randint lo hi (qty_draw (sa k))) (\<lambda>q.
       case purchase item q (sell_now (sa k)) (txn_uuid (sa k)) (txn_now (sa k)) of
         (Inl e, _) \<Rightarrow> Inl e
       | (Inr _, item') \<Rightarrow>
           bind (simulate_sales sa (Suc k) rest) (\<lambda>items. Inr (item' # items)))"

definition generate_store :: "(nat \<Rightarrow> shelf_draw) \<Rightarrow> (nat \<Rightarrow> sale_draw) \<Rightarrow> error + StoreItem list" where
  \<comment> \<open>\<open>sh i\<close> and \<open>sa i\<close>: what the environment supplies for the item at position \<open>i\<close>\<close>
  "generate_store sh sa =
     bind (random_shelf_tracking (sh 0)) (\<lambda>s0.
     bind (random_shelf_tracking (sh 1)) (\<lambda>s1.
     bind (random_shelf_tracking (sh 2)) (\<lambda>s2.
     bind (random_shelf_tracking (sh 3)) (\<lambda>s3.
     bind (random_shelf_tracking (sh 4)) (\<lambda>s4.
       let items_list =
             [new_StoreItem ''Baby Yoda Keychain'' ''57023'' 20 ''Keychain'' ''Front Counter'' s0,
              new_StoreItem ''iPhone 15 Case'' ''88002'' 20 ''Accessory'' ''End Cap A'' s1,
              new_StoreItem ''Disney Princess Keychain'' ''99011'' 20 ''Keychain'' ''Main Shelf'' s2,
              new_StoreItem ''Mandalorian Keychain'' ''57089'' 20 ''Keychain'' ''Main Shelf'' s3,
              new_StoreItem ''LED Lanyard'' ''44022'' 20 ''Accessory'' ''Rotating Rack'' s4]
       in simulate_sales sa 0
            (zip items_list [(10, 15), (6, 10), (5, 9), (4, 8), (1, 5)]))))))"

subsection \<open>KPIs\<close>

definition total_units_sold :: "StoreItem list \<Rightarrow> int" where
  "total_units_sold items =
     sum_list [- quantity_change t.
                 item \<leftarrow> items, t \<leftarrow> transactions item, transaction_type t = ''purchase'']
     - sum_list [quantity_change t.
                   item \<leftarrow> items, t \<leftarrow> transactions item, transaction_type t = ''return'']"

definition max_key :: "'a list \<Rightarrow> ('a \<Rightarrow> int) \<Rightarrow> error + 'a" where
  \<comment> \<open>\<^verbatim>\<open>max(iterable, key=key)\<close>: the running maximum is replaced only by a strictly
      greater key; an empty iterable raises\<close>
  "max_key xs key =
     (case xs of
        [] \<Rightarrow> Inl (ValueError ''max() iterable argument is empty'')
      | x # rest \<Rightarrow> Inr (foldl (\<lambda>best y. if key y > key best then y else best) x rest))"

definition location_key :: "StoreItem list \<Rightarrow> string \<Rightarrow> int" where
  \<comment> \<open>the \<^verbatim>\<open>key\<close> lambda of \<^verbatim>\<open>best_location\<close>\<close>
  "location_key items loc =
     sum_list [- quantity_change t.
                 i \<leftarrow> items, StoreItem.location i = loc,
                 t \<leftarrow> transactions i, transaction_type t = ''purchase'']"

definition best_location :: "(string list \<Rightarrow> string list) \<Rightarrow> StoreItem list \<Rightarrow> error + string" where
  \<comment> \<open>\<open>set_iter xs\<close>: the order in which Python iterates over \<^verbatim>\<open>set(xs)\<close>; it depends on
      the hash seed of the process, so it is a parameter\<close>
  "best_location set_iter items =
     max_key (set_iter (map StoreItem.location items)) (location_key items)"

subsection \<open>Notions of the specification\<close>

definition is_set_iteration :: "(string list \<Rightarrow> string list) \<Rightarrow> string list \<Rightarrow> bool" where
  \<comment> \<open>iterating over \<^verbatim>\<open>set(xs)\<close> yields each distinct element of \<open>xs\<close> once\<close>
  "is_set_iteration set_iter xs = (distinct (set_iter xs) \<and> set (set_iter xs) = set xs)"

definition whole_days_between :: "datetime \<Rightarrow> datetime \<Rightarrow> int \<Rightarrow> bool" where
  \<comment> \<open>\<open>d\<close> whole days, and less than one more, lie between \<open>earlier\<close> and \<open>later\<close>\<close>
  "whole_days_between later earlier d =
     (d * day_us \<le> microseconds later - microseconds earlier \<and>
      microseconds later - microseconds earlier < (d + 1) * day_us)"

definition purchase_magnitudes :: "StoreItem \<Rightarrow> int" where
  "purchase_magnitudes item =
     (\<Sum>t \<leftarrow> filter (\<lambda>t. transaction_type t = ''purchase'') (transactions item).
        \<bar>quantity_change t\<bar>)"

definition return_magnitudes :: "StoreItem \<Rightarrow> int" where
  "return_magnitudes item =
     (\<Sum>t \<leftarrow> filter (\<lambda>t. transaction_type t = ''return'') (transactions item).
        \<bar>quantity_change t\<bar>)"

definition gross_purchase_volume :: "StoreItem list \<Rightarrow> string \<Rightarrow> int" where
  "gross_purchase_volume items loc =
     (\<Sum>item \<leftarrow> filter (\<lambda>i. StoreItem.location i = loc) items. purchase_magnitudes item)"

definition purchase_deltas_nonpos :: "StoreItem \<Rightarrow> bool" where
  \<comment> \<open>the data model's sign convention for purchases: the delta is not positive\<close>
  "purchase_deltas_nonpos item =
     list_all (\<lambda>t. transaction_type t = ''purchase'' \<longrightarrow> quantity_change t \<le> 0)
       (transactions item)"

definition return_deltas_nonneg :: "StoreItem \<Rightarrow> bool" where
  \<comment> \<open>the data model's sign convention for returns: the delta is not negative\<close>
  "return_deltas_nonneg item =
     list_all (\<lambda>t. transaction_type t = ''return'' \<longrightarrow> 0 \<le> quantity_change t)
       (transactions item)"

subsection \<open>A concrete item\<close>

definition demo_shelf :: ShelfTracking where
  \<comment> \<open>received on 2025-01-02, displayed on 2025-01-04, both at midnight\<close>
  "demo_shelf =
     \<lparr>date_received = datetime_of (739252 * day_us),
      date_displayed = datetime_of (739254 * day_us)\<rparr>"

definition demo_item :: StoreItem where
  "demo_item = new_StoreItem ''Baby Yoda Keychain'' ''57023'' 20 ''Keychain'' ''Front Counter'' demo_shelf"

definition demo_now :: datetime where
  \<comment> \<open>2025-01-07 00:00:01\<close>
  "demo_now = datetime_of (739257 * day_us + 1000000)"

definition demo_ops :: "op list" where
  "demo_ops =
     [Purchase 5 demo_now ''id-1'' demo_now,
      Return 2 ''id-2'' demo_now,
      Replenish 3 ''id-3'' demo_now,
      AdvanceDay,
      Purchase 20 demo_now ''id-4'' demo_now]"

definition demo_item2 :: StoreItem where
  "demo_item2 = new_StoreItem ''iPhone 15 Case'' ''88002'' 20 ''Accessory'' ''End Cap A'' demo_shelf"

definition demo_sale :: "op list" where
  "demo_sale = [Purchase 7 demo_now ''id-5'' demo_now]"

definition demo_store :: "StoreItem list" where
  "demo_store = [apply_ops demo_item demo_ops, apply_ops demo_item2 demo_sale]"

definition tied_store :: "StoreItem list" where
  \<comment> \<open>two locations with the same purchase volume\<close>
  "tied_store = [apply_ops demo_item demo_sale, apply_ops demo_item2 demo_sale]"

definition refund_sale :: "op list" where
  \<comment> \<open>a purchase of a negative quantity, which \<^verbatim>\<open>purchase\<close> accepts\<close>
  "refund_sale = [Purchase (- 10) demo_now ''id-7'' demo_now]"

definition unsigned_store :: "StoreItem list" where
  "unsigned_store = [apply_ops demo_item refund_sale, apply_ops demo_item2 demo_sale]"

definition demo_shelf_draw :: "nat \<Rightarrow> shelf_draw" where
  "demo_shelf_draw i =
     \<lparr>received_draw = 3 + i, displayed_draw = 7 * i,
      received_now = demo_now, displayed_now = datetime_of (739257 * day_us + 1000005)\<rparr>"

definition demo_sale_draw :: "nat \<Rightarrow> sale_draw" where
  "demo_sale_draw i =
     \<lparr>qty_draw = 2 * i + 1, sell_now = datetime_of (739257 * day_us + 1000010),
      txn_uuid = replicate (Suc i) CHR ''u'', txn_now = datetime_of (739257 * day_us + 1000011)\<rparr>"






subsection \<open>Properties\<close>

lemma append_times_replicate: "append_times n v xs = xs @ replicate n v"
  by (induction n arbitrary: xs) (simp_all add: replicate_app_Cons_same)

lemma day_us_pos: "0 < day_us"
  by (simp add: day_us_def)

lemma microseconds_range: "0 \<le> microseconds d" "microseconds d \<le> datetime_max"
  using microseconds [of d] by simp_all

lemma microseconds_datetime_of:
  "0 \<le> t \<Longrightarrow> t \<le> datetime_max \<Longrightarrow> microseconds (datetime_of t) = t"
  by (simp add: datetime_of_inverse)

lemma timedelta_days_whole: "whole_days_between a b (timedelta_days a b)"
proof -
  define x where "x = microseconds a - microseconds b"
  define q where "q = x div day_us"
  define r where "r = x mod day_us"
  have e: "x = q * day_us + r" by (simp add: q_def r_def)
  have lo: "0 \<le> r" using day_us_pos by (simp add: r_def)
  have hi: "r < day_us" using day_us_pos by (simp add: r_def)
  have "q * day_us \<le> x" using e lo by linarith
  moreover have "x < (q + 1) * day_us"
    using e hi by (simp add: algebra_simps)
  ultimately show ?thesis
    by (simp add: whole_days_between_def timedelta_days_def x_def q_def)
qed

lemma timedelta_days_le: "timedelta_days a b \<le> 3652058"
proof -
  have "microseconds a - microseconds b \<le> datetime_max"
    using microseconds_range [of a] microseconds_range [of b] by linarith
  then have "(microseconds a - microseconds b) div day_us \<le> datetime_max div day_us"
    using day_us_pos by (intro zdiv_mono1) simp_all
  moreover have "datetime_max div day_us = 3652058"
    by (simp add: datetime_max_def day_us_def)
  ultimately show ?thesis by (simp add: timedelta_days_def)
qed

subsubsection \<open>purchase\<close>

text \<open>
  C1. With \<open>1 \<le> qty \<le> quantity\<close>, \<open>purchase\<close> returns a transaction and does not raise.
  With \<open>wd\<close> the whole days between the sale and the display date, it appends \<open>qty\<close>
  copies of \<open>max 0 wd\<close> to \<open>sold_durations\<close>, lowers \<open>quantity\<close> by \<open>qty\<close>, and appends
  to the log exactly the transaction it returns, whose delta is \<open>- qty\<close> and whose kind is
  purchase.
\<close>

theorem purchase_effect:
  assumes "1 \<le> qty" and "qty \<le> quantity self"
  shows "\<exists>txn self' wd.
           purchase self qty sell_date uuid4 now = (Inr txn, self') \<and>
           whole_days_between sell_date (date_displayed (shelf_tracking self)) wd \<and>
           sold_durations self' = sold_durations self @ replicate (nat qty) (max 0 wd) \<and>
           int (length (sold_durations self')) = int (length (sold_durations self)) + qty \<and>
           quantity self' = quantity self - qty \<and>
           transactions self' = transactions self @ [txn] \<and>
           quantity_change txn = - qty \<and>
           transaction_type txn = ''purchase''"
proof -
  let ?wd = "timedelta_days sell_date (date_displayed (shelf_tracking self))"
  let ?txn = "\<lparr>transaction_id = uuid4, storeitem_name = name self,
               location = StoreItem.location self, quantity_change = - qty,
               timestamp = now, transaction_type = ''purchase''\<rparr>"
  have w: "whole_days_between sell_date (date_displayed (shelf_tracking self)) ?wd"
    by (rule timedelta_days_whole)
  have p: "purchase self qty sell_date uuid4 now =
        (Inr ?txn,
         self\<lparr>sold_durations := sold_durations self @ replicate (nat qty) (max 0 ?wd),
              quantity := quantity self - qty,
              transactions := transactions self @ [?txn]\<rparr>)"
    using assms by (simp add: purchase_def record_transaction_def Let_def append_times_replicate)
  show ?thesis
    unfolding p using w assms by (intro exI conjI) (rule refl, assumption, simp_all)
qed

theorem purchase_effect_witness:
  "(1::int) \<le> 5 \<and> 5 \<le> quantity demo_item \<and>
   (\<exists>txn self' wd.
      purchase demo_item 5 demo_now ''id-1'' demo_now = (Inr txn, self') \<and>
      whole_days_between demo_now (date_displayed (shelf_tracking demo_item)) wd \<and>
      sold_durations self' = sold_durations demo_item @ replicate (nat 5) (max 0 wd) \<and>
      int (length (sold_durations self')) = int (length (sold_durations demo_item)) + 5 \<and>
      quantity self' = quantity demo_item - 5 \<and>
      transactions self' = transactions demo_item @ [txn] \<and>
      quantity_change txn = - 5 \<and>
      transaction_type txn = ''purchase'')"
proof -
  have a: "(1::int) \<le> 5" by simp
  have b: "5 \<le> quantity demo_item" by (simp add: demo_item_def new_StoreItem_def)
  show ?thesis
    using a b purchase_effect [OF a b, of demo_now "''id-1''" demo_now] by simp
qed

text \<open>
  C2. With \<open>qty > quantity\<close>, \<open>purchase\<close> raises (the source's
  \<^verbatim>\<open>ValueError("Not enough inventory to purchase")\<close>) and leaves the item as it was:
  quantity, log and \<open>sold_durations\<close> included.
\<close>

theorem purchase_insufficient:
  assumes "quantity self < qty"
  shows "purchase self qty sell_date uuid4 now =
           (Inl (ValueError ''Not enough inventory to purchase''), self)"
  using assms by (simp add: purchase_def)

theorem purchase_insufficient_witness:
  "quantity demo_item < 21 \<and>
   purchase demo_item 21 demo_now ''id-1'' demo_now =
     (Inl (ValueError ''Not enough inventory to purchase''), demo_item)"
proof -
  have a: "quantity demo_item < 21" by (simp add: demo_item_def new_StoreItem_def)
  show ?thesis
    using a purchase_insufficient [OF a, of demo_now "''id-1''" demo_now] by simp
qed

subsubsection \<open>The operations in closed form\<close>

lemma pop_times_take:
  "n \<le> length xs \<Longrightarrow> pop_times n xs = Inr (take (length xs - n) xs)"
proof (induction n arbitrary: xs)
  case 0
  then show ?case by simp
next
  case (Suc n)
  then have ne: "xs \<noteq> []" by auto
  have le: "n \<le> length (butlast xs)" using Suc.prems by simp
  have "take (length (butlast xs) - n) (butlast xs) = take (length xs - Suc n) xs"
    by (simp add: butlast_conv_take)
  then show ?case using Suc.IH [OF le] ne by simp
qed

lemma purchase_eq:
  "purchase self qty sell_date uuid4 now =
     (if quantity self < qty
      then (Inl (ValueError ''Not enough inventory to purchase''), self)
      else
        let d = max 0 (timedelta_days sell_date (date_displayed (shelf_tracking self)));
            txn = \<lparr>transaction_id = uuid4, storeitem_name = name self,
                   location = StoreItem.location self, quantity_change = - qty,
                   timestamp = now, transaction_type = ''purchase''\<rparr>
        in (Inr txn,
            self\<lparr>sold_durations := sold_durations self @ replicate (nat qty) d,
                 quantity := quantity self - qty,
                 transactions := transactions self @ [txn]\<rparr>))"
  by (simp add: purchase_def record_transaction_def Let_def append_times_replicate)

lemma return_item_eq:
  "return_item self qty uuid4 now =
     (let k = nat (min qty (int (length (sold_durations self))));
          txn = \<lparr>transaction_id = uuid4, storeitem_name = name self,
                 location = StoreItem.location self, quantity_change = qty,
                 timestamp = now, transaction_type = ''return''\<rparr>
      in (Inr txn,
          self\<lparr>sold_durations := take (length (sold_durations self) - k) (sold_durations self),
               quantity := quantity self + qty,
               transactions := transactions self @ [txn]\<rparr>))"
proof -
  let ?xs = "sold_durations self"
  let ?k = "nat (min qty (int (length ?xs)))"
  have "?k \<le> length ?xs" by simp
  then have p: "pop_times ?k ?xs = Inr (take (length ?xs - ?k) ?xs)"
    by (rule pop_times_take)
  show ?thesis
    unfolding return_item_def p by (simp add: record_transaction_def Let_def)
qed

lemma replenish_eq:
  "replenish self qty uuid4 now =
     (let txn = \<lparr>transaction_id = uuid4, storeitem_name = name self,
                 location = StoreItem.location self, quantity_change = qty,
                 timestamp = now, transaction_type = ''replenish''\<rparr>
      in (Inr txn,
          self\<lparr>quantity := quantity self + qty,
               transactions := transactions self @ [txn]\<rparr>))"
  by (simp add: replenish_def record_transaction_def Let_def)

lemma advance_day_fields:
  "quantity (snd (advance_day item)) = quantity item"
  "transactions (snd (advance_day item)) = transactions item"
  "sold_durations (snd (advance_day item)) = sold_durations item"
  by (simp_all add: advance_day_def split: sum.splits)

subsubsection \<open>return_item\<close>

text \<open>
  C3. With \<open>qty \<ge> 1\<close>, \<open>return_item\<close> returns a transaction and does not raise. It
  removes \<open>min qty (length sold_durations)\<close> entries from the end of \<open>sold_durations\<close>
  (what is left is a prefix of the old list), raises \<open>quantity\<close> by the full \<open>qty\<close>,
  and appends to the log exactly the transaction it returns, whose delta is \<open>qty\<close> and
  whose kind is return.
\<close>

theorem return_item_effect:
  assumes "1 \<le> qty"
  shows "\<exists>txn self' removed.
           return_item self qty uuid4 now = (Inr txn, self') \<and>
           sold_durations self = sold_durations self' @ removed \<and>
           int (length removed) = min qty (int (length (sold_durations self))) \<and>
           quantity self' = quantity self + qty \<and>
           transactions self' = transactions self @ [txn] \<and>
           quantity_change txn = qty \<and>
           transaction_type txn = ''return''"
proof -
  let ?xs = "sold_durations self"
  let ?k = "nat (min qty (int (length ?xs)))"
  have len: "int (length (drop (length ?xs - ?k) ?xs)) = min qty (int (length ?xs))"
    using assms by simp
  show ?thesis
    unfolding return_item_eq Let_def
    apply (intro exI conjI)
          apply (rule refl)
         prefer 2
         apply (rule len)
        apply simp_all
    done
qed

theorem return_item_effect_witness:
  "(1::int) \<le> 3 \<and>
   (\<exists>txn self' removed.
      return_item (demo_item\<lparr>sold_durations := [4, 7]\<rparr>) 3 ''id-2'' demo_now = (Inr txn, self') \<and>
      sold_durations (demo_item\<lparr>sold_durations := [4, 7]\<rparr>) = sold_durations self' @ removed \<and>
      int (length removed) = min 3 (int (length (sold_durations (demo_item\<lparr>sold_durations := [4, 7]\<rparr>)))) \<and>
      quantity self' = quantity (demo_item\<lparr>sold_durations := [4, 7]\<rparr>) + 3 \<and>
      transactions self' = transactions (demo_item\<lparr>sold_durations := [4, 7]\<rparr>) @ [txn] \<and>
      quantity_change txn = 3 \<and>
      transaction_type txn = ''return'')"
proof -
  have a: "(1::int) \<le> 3" by simp
  show ?thesis
    using a return_item_effect [OF a, of "demo_item\<lparr>sold_durations := [4, 7]\<rparr>" "''id-2''" demo_now]
    by simp
qed

text \<open>
  C7. With \<open>1 \<le> qty \<le> quantity\<close>, a purchase followed at once by a return of the
  same \<open>qty\<close> succeeds twice and leaves \<open>quantity\<close> at its value before the purchase.
\<close>

theorem purchase_then_return_quantity:
  assumes "1 \<le> qty" and "qty \<le> quantity self"
  shows "\<exists>t1 s1 t2 s2.
           purchase self qty sell_date uuid4 now = (Inr t1, s1) \<and>
           return_item s1 qty uuid4' now' = (Inr t2, s2) \<and>
           quantity s2 = quantity self"
proof -
  obtain t1 s1 where p: "purchase self qty sell_date uuid4 now = (Inr t1, s1)"
    and q1: "quantity s1 = quantity self - qty"
    using assms by (simp add: purchase_eq Let_def)
  obtain t2 s2 where r: "return_item s1 qty uuid4' now' = (Inr t2, s2)"
    and q2: "quantity s2 = quantity s1 + qty"
    by (simp add: return_item_eq Let_def)
  from p r q1 q2 show ?thesis by simp
qed

theorem purchase_then_return_quantity_witness:
  "(1::int) \<le> 5 \<and> 5 \<le> quantity demo_item \<and>
   (\<exists>t1 s1 t2 s2.
      purchase demo_item 5 demo_now ''id-1'' demo_now = (Inr t1, s1) \<and>
      return_item s1 5 ''id-2'' demo_now = (Inr t2, s2) \<and>
      quantity s2 = quantity demo_item)"
proof -
  have a: "(1::int) \<le> 5" by simp
  have b: "5 \<le> quantity demo_item" by (simp add: demo_item_def new_StoreItem_def)
  show ?thesis
    using a b purchase_then_return_quantity [OF a b, of demo_now "''id-1''" demo_now "''id-2''" demo_now]
    by simp
qed

text \<open>
  In this immediate case the entries the return removes are the ones the purchase has
  just appended, so \<open>sold_durations\<close> comes back as well.
\<close>

lemma purchase_then_return_durations:
  assumes "0 \<le> qty" and "qty \<le> quantity self"
  shows "sold_durations (snd (return_item (snd (purchase self qty sell_date uuid4 now)) qty uuid4' now'))
           = sold_durations self"
  using assms by (simp add: purchase_eq return_item_eq Let_def)

subsubsection \<open>Invariants of sequences of operations\<close>

lemma apply_op_quantity:
  assumes "0 \<le> quantity item" and "valid_op item x"
  shows "0 \<le> quantity (apply_op item x)"
proof (cases x)
  case (Purchase qty sell_date uuid4 now)
  with assms show ?thesis by (simp add: purchase_eq Let_def)
next
  case (Return qty uuid4 now)
  with assms show ?thesis by (simp add: return_item_eq Let_def)
next
  case (Replenish qty uuid4 now)
  with assms show ?thesis by (simp add: replenish_eq Let_def)
next
  case AdvanceDay
  with assms show ?thesis by (simp add: advance_day_fields)
qed

lemma demo_ops_valid: "valid_ops demo_item demo_ops"
  by (simp add: demo_ops_def demo_item_def new_StoreItem_def purchase_eq return_item_eq
      replenish_eq advance_day_fields Let_def)

lemma demo_ops_quantity: "quantity (apply_ops demo_item demo_ops) = 0"
  by (simp add: demo_ops_def demo_item_def new_StoreItem_def purchase_eq return_item_eq
      replenish_eq advance_day_fields Let_def)


text \<open>
  C4. From an item whose quantity is not negative, any sequence of operations that each
  meet their precondition when they run (a purchase of \<open>1 \<le> qty \<le>\<close> the current
  quantity, a return or a replenishment of \<open>qty \<ge> 1\<close>, a day passing) leaves
  \<open>quantity \<ge> 0\<close>.
\<close>

theorem quantity_never_negative:
  assumes "0 \<le> quantity item" and "valid_ops item ops"
  shows "0 \<le> quantity (apply_ops item ops)"
  using assms
proof (induction ops arbitrary: item)
  case Nil
  then show ?case by simp
next
  case (Cons x xs)
  from Cons.prems have v: "valid_op item x" and vs: "valid_ops (apply_op item x) xs"
    by simp_all
  have "0 \<le> quantity (apply_op item x)"
    using Cons.prems(1) v by (rule apply_op_quantity)
  then have "0 \<le> quantity (apply_ops (apply_op item x) xs)"
    using vs by (rule Cons.IH)
  then show ?case by simp
qed


theorem quantity_never_negative_witness:
  "0 \<le> quantity demo_item \<and> valid_ops demo_item demo_ops \<and>
   0 \<le> quantity (apply_ops demo_item demo_ops)"
proof -
  have a: "0 \<le> quantity demo_item" by (simp add: demo_item_def new_StoreItem_def)
  show ?thesis
    using a demo_ops_valid quantity_never_negative [OF a demo_ops_valid] by simp
qed

lemma apply_op_durations:
  assumes "list_all (\<lambda>d. 0 \<le> d \<and> d \<le> 3652058) (sold_durations item)"
  shows "list_all (\<lambda>d. 0 \<le> d \<and> d \<le> 3652058) (sold_durations (apply_op item x))"
proof (cases x)
  case (Purchase qty sell_date uuid4 now)
  with assms show ?thesis
    using timedelta_days_le [of sell_date "date_displayed (shelf_tracking item)"]
    by (auto simp add: purchase_eq Let_def list_all_iff)
next
  case (Return qty uuid4 now)
  have "set (take n (sold_durations item)) \<subseteq> set (sold_durations item)" for n
    by (rule set_take_subset)
  with Return assms show ?thesis by (auto simp add: return_item_eq Let_def list_all_iff)
next
  case (Replenish qty uuid4 now)
  with assms show ?thesis by (simp add: replenish_eq Let_def)
next
  case AdvanceDay
  with assms show ?thesis by (simp add: advance_day_fields)
qed

lemma apply_ops_durations:
  assumes "list_all (\<lambda>d. 0 \<le> d \<and> d \<le> 3652058) (sold_durations item)"
  shows "list_all (\<lambda>d. 0 \<le> d \<and> d \<le> 3652058) (sold_durations (apply_ops item ops))"
  using assms
proof (induction ops arbitrary: item)
  case Nil
  then show ?case by simp
next
  case (Cons x xs)
  have "list_all (\<lambda>d. 0 \<le> d \<and> d \<le> 3652058) (sold_durations (apply_op item x))"
    using Cons.prems by (rule apply_op_durations)
  then show ?case using Cons.IH by simp
qed

lemma sum_list_bounds:
  "list_all (\<lambda>d. 0 \<le> d \<and> d \<le> k) xs \<Longrightarrow>
     (0::int) \<le> sum_list xs \<and> sum_list xs \<le> k * int (length xs)"
  by (induction xs) (auto simp add: algebra_simps)

subsubsection \<open>Rounding to a float\<close>

lemma round_half_even_close: "\<bar>of_int (round_half_even x) - x\<bar> \<le> 1 / 2"
proof -
  have "of_int \<lfloor>x\<rfloor> \<le> x" "x < of_int \<lfloor>x\<rfloor> + 1" by linarith+
  then show ?thesis
    by (auto simp add: round_half_even_def Let_def abs_le_iff)
qed

lemma round_half_even_nonneg: "0 \<le> x \<Longrightarrow> 0 \<le> round_half_even x"
  by (auto simp add: round_half_even_def Let_def)

lemma floor_log2_le:
  assumes "0 < a" and "0 < b"
  shows "2 powi (floor_log2 a b) \<le> (of_int a / of_int b :: rat)"
proof -
  define d where "d = bitlen a - bitlen b"
  have pa: "(2::rat) powi (bitlen a - 1) \<le> of_int a"
  proof -
    have "bitlen a \<ge> 1" using assms(1) bitlen_eq_zero_iff [of a] bitlen_nonneg [of a] by linarith
    then have "(2::rat) powi (bitlen a - 1) = 2 ^ nat (bitlen a - 1)"
      by (simp add: power_int_nonneg_exp)
    also have "\<dots> = of_int (2 ^ nat (bitlen a - 1))" by simp
    also have "\<dots> \<le> of_int a" using bitlen_bounds [OF assms(1)] by (subst of_int_le_iff) simp
    finally show ?thesis .
  qed
  have pb: "of_int b \<le> (2::rat) powi (bitlen b)"
  proof -
    have "(2::rat) powi (bitlen b) = 2 ^ nat (bitlen b)"
      using bitlen_nonneg [of b] by (simp add: power_int_nonneg_exp)
    also have "\<dots> = of_int (2 ^ nat (bitlen b))" by simp
    finally have e: "(2::rat) powi (bitlen b) = of_int (2 ^ nat (bitlen b))" .
    have "b \<le> 2 ^ nat (bitlen b)" using bitlen_bounds [OF assms(2)] by simp
    then show ?thesis unfolding e by (subst of_int_le_iff)
  qed
  have lo: "(2::rat) powi (d - 1) \<le> of_int a / of_int b"
  proof -
    have "(2::rat) powi (d - 1) = 2 powi (bitlen a - 1) / 2 powi (bitlen b)"
      unfolding d_def by (simp add: power_int_diff [symmetric] algebra_simps)
    also have "\<dots> \<le> of_int a / of_int b"
      using pa pb assms by (intro frac_le) simp_all
    finally show ?thesis .
  qed
  show ?thesis
  proof (cases "if 0 \<le> d then b * 2 ^ nat d \<le> a else b \<le> a * 2 ^ nat (- d)")
    case True
    then have f: "floor_log2 a b = d"
      unfolding floor_log2_def Let_def d_def [symmetric] by simp
    have "(2::rat) powi d \<le> of_int a / of_int b"
    proof (cases "0 \<le> d")
      case True
      with \<open>if 0 \<le> d then b * 2 ^ nat d \<le> a else b \<le> a * 2 ^ nat (- d)\<close>
      have "b * 2 ^ nat d \<le> a" by simp
      then have "(of_int (b * 2 ^ nat d) :: rat) \<le> of_int a" by (subst of_int_le_iff)
      then have "(of_int b :: rat) * 2 ^ nat d \<le> of_int a" by simp
      then have "(2::rat) ^ nat d \<le> of_int a / of_int b"
        using assms(2) by (simp add: pos_le_divide_eq mult.commute)
      then show ?thesis using True by (simp add: power_int_nonneg_exp)
    next
      case False
      with \<open>if 0 \<le> d then b * 2 ^ nat d \<le> a else b \<le> a * 2 ^ nat (- d)\<close>
      have "b \<le> a * 2 ^ nat (- d)" by simp
      then have "(of_int b :: rat) \<le> of_int (a * 2 ^ nat (- d))" by (subst of_int_le_iff)
      then have "(of_int b :: rat) \<le> of_int a * 2 ^ nat (- d)" by simp
      then have "1 / (2::rat) ^ nat (- d) \<le> of_int a / of_int b"
        using assms(2) by (simp add: field_simps)
      moreover have "(2::rat) powi d = 1 / 2 ^ nat (- d)"
        using False by (simp add: power_int_def field_simps)
      ultimately show ?thesis by simp
    qed
    then show ?thesis unfolding f .
  next
    case False
    then have f: "floor_log2 a b = d - 1"
      unfolding floor_log2_def Let_def d_def [symmetric] by simp
    show ?thesis unfolding f by (rule lo)
  qed
qed

lemma floor_log2_less:
  assumes "0 < a" and "0 < b"
  shows "(of_int a / of_int b :: rat) < 2 powi (floor_log2 a b + 1)"
proof -
  define d where "d = bitlen a - bitlen b"
  have la: "bitlen a \<ge> 1" using assms(1) bitlen_eq_zero_iff [of a] bitlen_nonneg [of a] by linarith
  have lb: "bitlen b \<ge> 1" using assms(2) bitlen_eq_zero_iff [of b] bitlen_nonneg [of b] by linarith
  have pa: "of_int a < (2::rat) powi (bitlen a)"
  proof -
    have "(2::rat) powi (bitlen a) = of_int (2 ^ nat (bitlen a))"
      using la by (simp add: power_int_nonneg_exp)
    moreover have "a < 2 ^ nat (bitlen a)" using bitlen_bounds [OF assms(1)] by simp
    ultimately show ?thesis by (simp only: of_int_less_iff)
  qed
  have pb: "(2::rat) powi (bitlen b - 1) \<le> of_int b"
  proof -
    have "(2::rat) powi (bitlen b - 1) = of_int (2 ^ nat (bitlen b - 1))"
      using lb by (simp add: power_int_nonneg_exp)
    moreover have "2 ^ nat (bitlen b - 1) \<le> b" using bitlen_bounds [OF assms(2)] by simp
    ultimately show ?thesis by (simp only: of_int_le_iff)
  qed
  have hi: "of_int a / of_int b < (2::rat) powi (d + 1)"
  proof -
    have "of_int a / of_int b < (2::rat) powi (bitlen a) / 2 powi (bitlen b - 1)"
      using pa pb assms by (intro frac_less) simp_all
    also have "\<dots> = 2 powi (d + 1)"
      unfolding d_def by (simp add: power_int_diff [symmetric] algebra_simps)
    finally show ?thesis .
  qed
  show ?thesis
  proof (cases "if 0 \<le> d then b * 2 ^ nat d \<le> a else b \<le> a * 2 ^ nat (- d)")
    case True
    then have f: "floor_log2 a b = d"
      unfolding floor_log2_def Let_def d_def [symmetric] by simp
    show ?thesis unfolding f by (rule hi)
  next
    case False
    then have f: "floor_log2 a b = d - 1"
      unfolding floor_log2_def Let_def d_def [symmetric] by simp
    have "of_int a / of_int b < (2::rat) powi d"
    proof (cases "0 \<le> d")
      case True
      with False have "a < b * 2 ^ nat d" by simp
      then have "(of_int a :: rat) < of_int (b * 2 ^ nat d)" by (simp only: of_int_less_iff)
      then have "(of_int a :: rat) < of_int b * 2 ^ nat d" by simp
      then have "of_int a / of_int b < (2::rat) ^ nat d"
        using assms(2) by (simp add: pos_divide_less_eq mult.commute)
      then show ?thesis using True by (simp add: power_int_nonneg_exp)
    next
      case neg: False
      with False have "a * 2 ^ nat (- d) < b" by simp
      then have "(of_int (a * 2 ^ nat (- d)) :: rat) < of_int b" by (simp only: of_int_less_iff)
      then have "(of_int a :: rat) * 2 ^ nat (- d) < of_int b" by simp
      then have "of_int a / of_int b < 1 / (2::rat) ^ nat (- d)"
        using assms(2) by (simp add: field_simps)
      moreover have "(2::rat) powi d = 1 / 2 ^ nat (- d)"
        using neg by (simp add: power_int_def field_simps)
      ultimately show ?thesis by simp
    qed
    then show ?thesis unfolding f by simp
  qed
qed

text \<open>
  Below \<open>2 ^ 1023\<close> the division does not raise, and its result is within half a unit
  in the last place of the quotient.
\<close>

lemma true_divide_close:
  assumes "0 < b" and "a \<noteq> 0" and "\<bar>a\<bar> < b * 2 ^ 1023"
  shows "\<exists>f. true_divide a b = Inr f \<and>
             \<bar>f - of_int a / of_int b\<bar> \<le> max (\<bar>of_int a / of_int b\<bar> / 2 ^ 53) (1 / 2 ^ 1075) \<and>
             (0 < a \<longrightarrow> 0 \<le> f)"
proof -
  define x :: rat where "x = of_int \<bar>a\<bar> / of_int b"
  define e where "e = floor_log2 \<bar>a\<bar> b"
  define q where "q = max (e - 52) (- 1074)"
  define s :: rat where "s = 2 powi q"
  define m where "m = round_half_even (x / s)"
  define f where "f = of_int m * s"
  have apos: "0 < \<bar>a\<bar>" using assms(2) by simp
  have xpos: "0 < x" unfolding x_def using apos assms(1) by simp
  have spos: "0 < s" unfolding s_def by simp
  have le: "2 powi e \<le> x" unfolding e_def x_def using apos assms(1) by (rule floor_log2_le)
  have xlt: "x < 2 ^ 1023"
  proof -
    have "(of_int \<bar>a\<bar> :: rat) < of_int (b * 2 ^ 1023)" using assms(3) by (subst of_int_less_iff)
    then have "(of_int \<bar>a\<bar> :: rat) < of_int b * 2 ^ 1023" by simp
    then show ?thesis unfolding x_def using assms(1) by (simp add: pos_divide_less_eq mult.commute)
  qed
  have half: "s / 2 \<le> max (x / 2 ^ 53) (1 / 2 ^ 1075)"
  proof (cases "- 1074 \<le> e - 52")
    case True
    then have "q = e - 52" by (simp add: q_def)
    then have "s = 2 powi e / 2 ^ 52" unfolding s_def by (simp add: power_int_diff)
    then have "s / 2 = 2 powi e / 2 ^ 53" by simp
    also have "\<dots> \<le> x / 2 ^ 53" using le by (simp add: divide_right_mono)
    finally show ?thesis by simp
  next
    case False
    then have "q = - 1074" by (simp add: q_def)
    then have "s = 1 / 2 ^ 1074" unfolding s_def by (simp add: power_int_minus_divide)
    then have "s / 2 = 1 / 2 ^ 1075" by simp
    then show ?thesis by simp
  qed
  have "\<bar>of_int m - x / s\<bar> \<le> 1 / 2" unfolding m_def by (rule round_half_even_close)
  then have "\<bar>of_int m - x / s\<bar> * s \<le> 1 / 2 * s" using spos by (simp add: mult_right_mono)
  moreover have "\<bar>of_int m - x / s\<bar> * s = \<bar>f - x\<bar>"
  proof -
    have "(of_int m - x / s) * s = f - x"
      unfolding f_def using spos by (simp add: left_diff_distrib)
    moreover have "\<bar>of_int m - x / s\<bar> * s = \<bar>(of_int m - x / s) * s\<bar>"
      using spos by (intro abs_mult_pos) simp
    ultimately show ?thesis by (simp only:)
  qed
  ultimately have err: "\<bar>f - x\<bar> \<le> s / 2" by simp
  have fnn: "0 \<le> f" unfolding f_def m_def using xpos spos
    by (intro mult_nonneg_nonneg) (simp_all add: round_half_even_nonneg)
  define B :: rat where "B = 2 ^ 1023"
  define M :: rat where "M = max (x / 2 ^ 53) (1 / 2 ^ 1075)"
  have B2: "(2::rat) ^ 1024 = 2 * B" unfolding B_def by simp
  have "M < B"
  proof -
    have "x / 2 ^ 53 \<le> x" using xpos by (simp add: field_simps)
    then have a: "x / 2 ^ 53 < B" using xlt unfolding B_def by linarith
    have "(1::rat) / 2 ^ 1075 \<le> 1" by simp
    moreover have "(1::rat) < B" unfolding B_def by simp
    ultimately have b: "(1::rat) / 2 ^ 1075 < B" by linarith
    from a b show ?thesis unfolding M_def by (simp only: max_less_iff_conj)
  qed
  moreover have "\<bar>f - x\<bar> \<le> M" using err half unfolding M_def by linarith
  moreover have "x < B" using xlt unfolding B_def .
  ultimately have "f < 2 * B" by linarith
  then have "\<not> 2 ^ 1024 \<le> f" unfolding B2 by simp
  then have td: "true_divide a b = Inr (of_int (sgn a) * f)"
    using assms(2)
    unfolding true_divide_def Let_def f_def m_def s_def q_def e_def x_def by (simp only: if_False)
  have sx: "(of_int a / of_int b :: rat) = of_int (sgn a) * x"
    unfolding x_def by (cases "0 < a") (use assms(2) in \<open>auto simp add: sgn_if\<close>)
  have ax: "\<bar>of_int a / of_int b :: rat\<bar> = x"
    unfolding x_def using assms(1) by simp
  have "\<bar>of_int (sgn a) * f - of_int a / of_int b\<bar> = \<bar>f - x\<bar>"
    unfolding sx by (cases "0 < a") (use assms(2) in \<open>auto simp add: sgn_if abs_minus_commute\<close>)
  then have "\<bar>of_int (sgn a) * f - of_int a / of_int b\<bar>
               \<le> max (\<bar>of_int a / of_int b\<bar> / 2 ^ 53) (1 / 2 ^ 1075)"
    unfolding ax using err half by linarith
  moreover have "0 < a \<longrightarrow> 0 \<le> of_int (sgn a) * f" using fnn by simp
  ultimately show ?thesis using td by blast
qed

text \<open>
  The values Python prints for \<^verbatim>\<open>1 / 3\<close>, \<^verbatim>\<open>1 / 10\<close> and \<^verbatim>\<open>-7 / 2\<close>:
  \<^verbatim>\<open>0.3333333333333333\<close>, \<^verbatim>\<open>0.1\<close> and \<^verbatim>\<open>-3.5\<close>, as the rationals they denote.
\<close>

lemma true_divide_examples:
  "true_divide 1 3 = Inr (6004799503160661 / 18014398509481984)"
  "true_divide 1 10 = Inr (3602879701896397 / 36028797018963968)"
  "true_divide (- 7) 2 = Inr (- 7 / 2)"
  by code_simp+

subsubsection \<open>statistics.mean\<close>

lemma lowest_terms:
  fixes total :: int and n :: nat
  assumes "0 < n"
  defines "g \<equiv> gcd total (int n)"
  shows "0 < g" and "total = (total div g) * g" and "int n = (int n div g) * g"
    and "0 < int n div g" and "int n div g = 1 \<longleftrightarrow> int n dvd total"
proof -
  show g: "0 < g" unfolding g_def using assms(1) by (simp add: gcd_pos_int)
  show t: "total = (total div g) * g" unfolding g_def by simp
  show n: "int n = (int n div g) * g" unfolding g_def by simp
  show d: "0 < int n div g"
    using n g assms(1) by (metis of_nat_0_less_iff zero_less_mult_pos2)
  show "int n div g = 1 \<longleftrightarrow> int n dvd total"
  proof
    assume "int n div g = 1"
    then have "int n = g" using n by simp
    then show "int n dvd total" unfolding g_def by (metis gcd_dvd1)
  next
    assume "int n dvd total"
    then have "g = int n" unfolding g_def by (simp add: gcd_proj2_if_dvd)
    then show "int n div g = 1" using assms(1) by simp
  qed
qed

lemma statistics_mean_integral:
  assumes "xs \<noteq> []" and "int (length xs) dvd sum_list xs"
  shows "statistics_mean xs = Inr (PyInt (sum_list xs div int (length xs)))"
proof -
  have n: "0 < length xs" using assms(1) by simp
  have "gcd (sum_list xs) (int (length xs)) = int (length xs)"
    using assms(2) by (simp add: gcd_proj2_if_dvd)
  then show ?thesis
    using n by (simp add: statistics_mean_def Let_def)
qed

lemma statistics_mean_float:
  assumes "xs \<noteq> []" and "\<not> int (length xs) dvd sum_list xs"
    and "\<bar>sum_list xs\<bar> < int (length xs) * 2 ^ 1023"
  shows "\<exists>f. statistics_mean xs = Inr (PyFloat f) \<and>
             \<bar>f - of_int (sum_list xs) / of_nat (length xs)\<bar>
               \<le> max (\<bar>of_int (sum_list xs) / of_nat (length xs)\<bar> / 2 ^ 53) (1 / 2 ^ 1075) \<and>
             (0 \<le> sum_list xs \<longrightarrow> 0 \<le> f)"
proof -
  define total where "total = sum_list xs"
  define n where "n = length xs"
  define g where "g = gcd total (int n)"
  define num where "num = total div g"
  define den where "den = int n div g"
  have n: "0 < n" using assms(1) by (simp add: n_def)
  have g: "0 < g" unfolding g_def using n by (rule lowest_terms(1))
  have t: "total = num * g" unfolding num_def g_def using n by (rule lowest_terms(2))
  have nn: "int n = den * g" unfolding den_def g_def using n by (rule lowest_terms(3))
  have d: "0 < den" unfolding den_def g_def using n by (rule lowest_terms(4))
  have "den = 1 \<longleftrightarrow> int n dvd total"
    unfolding den_def g_def using n by (rule lowest_terms(5))
  then have d1: "den \<noteq> 1" using assms(2) by (simp add: total_def n_def)
  have num0: "num \<noteq> 0"
  proof
    assume "num = 0"
    then have "total = 0" using t by simp
    then show False using assms(2) by (simp add: total_def)
  qed
  have "\<bar>num\<bar> * g < (den * 2 ^ 1023) * g"
  proof -
    have "\<bar>num\<bar> * g = \<bar>total\<bar>" using t g by (simp add: abs_mult)
    also have "\<dots> < int n * 2 ^ 1023" using assms(3) by (simp add: total_def n_def)
    also have "\<dots> = (den * 2 ^ 1023) * g" using nn by (simp add: mult_ac)
    finally show ?thesis .
  qed
  then have b: "\<bar>num\<bar> < den * 2 ^ 1023" using g by (simp only: mult_less_cancel_right_pos)
  have q: "(of_int num / of_int den :: rat) = of_int total / of_nat n"
  proof -
    have "(of_int total :: rat) = of_int num * of_int g" using t by (metis of_int_mult)
    moreover have "(of_nat n :: rat) = of_int den * of_int g"
      using nn by (metis of_int_mult of_int_of_nat_eq)
    moreover have "(of_int g :: rat) \<noteq> 0" using g by simp
    ultimately show ?thesis by simp
  qed
  from true_divide_close [OF d num0 b] obtain f where
    f: "true_divide num den = Inr f"
    and c: "\<bar>f - of_int num / of_int den\<bar> \<le> max (\<bar>of_int num / of_int den\<bar> / 2 ^ 53) (1 / 2 ^ 1075)"
    and p: "0 < num \<longrightarrow> 0 \<le> f"
    by blast
  have m: "statistics_mean xs = Inr (PyFloat f)"
    using n d1 f
    unfolding statistics_mean_def Let_def n_def [symmetric] total_def [symmetric]
      g_def [symmetric] num_def [symmetric] den_def [symmetric]
    by simp
  have "0 \<le> total \<longrightarrow> 0 < num"
  proof
    assume "0 \<le> total"
    then have "0 \<le> num * g" using t by simp
    then have "0 \<le> num" using g by (simp add: zero_le_mult_iff)
    then show "0 < num" using num0 by simp
  qed
  with m c p show ?thesis unfolding q total_def n_def by blast
qed

lemma average_nonneg:
  assumes "list_all (\<lambda>d. 0 \<le> d \<and> d \<le> 3652058) (sold_durations item)"
  shows "\<exists>m. average_days_to_sell item = Inr m \<and> 0 \<le> py_value m"
proof (cases "sold_durations item = []")
  case True
  then show ?thesis by (simp add: average_days_to_sell_def py_value_def)
next
  case False
  let ?xs = "sold_durations item"
  have n: "0 < int (length ?xs)" using False by simp
  have b: "0 \<le> sum_list ?xs" "sum_list ?xs \<le> 3652058 * int (length ?xs)"
    using sum_list_bounds [OF assms] by simp_all
  show ?thesis
  proof (cases "int (length ?xs) dvd sum_list ?xs")
    case True
    have "0 \<le> sum_list ?xs div int (length ?xs)"
      using b(1) n by (simp add: pos_imp_zdiv_nonneg_iff)
    then show ?thesis
      using False statistics_mean_integral [OF False True]
      by (simp add: average_days_to_sell_def py_value_def)
  next
    case d: False
    define B :: int where "B = 2 ^ 1023"
    have "3652058 < B" unfolding B_def by simp
    then have "3652058 * int (length ?xs) < B * int (length ?xs)"
      using n by (simp only: mult_less_cancel_right_pos)
    then have "\<bar>sum_list ?xs\<bar> < int (length ?xs) * B"
      using b by (simp add: mult.commute)
    then have "\<bar>sum_list ?xs\<bar> < int (length ?xs) * 2 ^ 1023"
      unfolding B_def .
    from statistics_mean_float [OF False d this] b(1) obtain f where
      "statistics_mean ?xs = Inr (PyFloat f)" "0 \<le> f"
      by blast
    then show ?thesis
      using False by (simp add: average_days_to_sell_def py_value_def)
  qed
qed

lemma demo_microseconds:
  "microseconds demo_now = 739257 * day_us + 1000000"
  "microseconds (date_received demo_shelf) = 739252 * day_us"
  "microseconds (date_displayed demo_shelf) = 739254 * day_us"
  by (simp_all add: demo_now_def demo_shelf_def microseconds_datetime_of datetime_max_def
      day_us_def)

lemma demo_ops_durations:
  "sold_durations (apply_ops demo_item demo_ops) = replicate 3 3 @ replicate 20 4"
  by (simp add: demo_ops_def demo_item_def new_StoreItem_def demo_shelf_def demo_now_def
      purchase_eq return_item_eq replenish_eq advance_day_def sub_days_def timedelta_days_def
      microseconds_datetime_of datetime_max_def day_us_def Let_def)

text \<open>
  C10. An item starts with an empty \<open>sold_durations\<close>; after any sequence of operations
  (whether or not they meet their preconditions) every entry of \<open>sold_durations\<close> is
  non-negative, and \<open>average_days_to_sell\<close> returns a non-negative value.
\<close>

theorem sold_durations_nonnegative:
  "list_all (\<lambda>d. 0 \<le> d) (sold_durations (apply_ops (new_StoreItem n u q c l s) ops)) \<and>
   (\<exists>m. average_days_to_sell (apply_ops (new_StoreItem n u q c l s) ops) = Inr m \<and>
        0 \<le> py_value m)"
proof -
  have "list_all (\<lambda>d. 0 \<le> d \<and> d \<le> 3652058) (sold_durations (new_StoreItem n u q c l s))"
    by (simp add: new_StoreItem_def)
  then have a: "list_all (\<lambda>d. 0 \<le> d \<and> d \<le> 3652058)
                  (sold_durations (apply_ops (new_StoreItem n u q c l s) ops))"
    by (rule apply_ops_durations)
  then have "list_all (\<lambda>d. 0 \<le> d) (sold_durations (apply_ops (new_StoreItem n u q c l s) ops))"
    by (simp add: list_all_iff)
  with average_nonneg [OF a] show ?thesis by simp
qed

theorem sold_durations_nonnegative_witness:
  "list_all (\<lambda>d. 0 \<le> d) (sold_durations (apply_ops demo_item demo_ops)) \<and>
   (\<exists>m. average_days_to_sell (apply_ops demo_item demo_ops) = Inr m \<and> 0 \<le> py_value m)"
  using sold_durations_nonnegative [of "''Baby Yoda Keychain''" "''57023''" 20 "''Keychain''" "''Front Counter''" demo_shelf demo_ops]
  by (simp add: demo_item_def)

subsubsection \<open>average_days_to_sell\<close>









subsubsection \<open>The sign convention of the log\<close>

text \<open>
  Operations that meet their preconditions write purchases with a negative delta and
  returns with a positive one, so the logs of a session keep the data model's convention.
\<close>

lemma apply_op_signs:
  assumes "valid_op item x"
  shows "purchase_deltas_nonpos item \<Longrightarrow> purchase_deltas_nonpos (apply_op item x)"
    and "return_deltas_nonneg item \<Longrightarrow> return_deltas_nonneg (apply_op item x)"
  using assms
  by (cases x; simp add: purchase_deltas_nonpos_def return_deltas_nonneg_def purchase_eq
      return_item_eq replenish_eq advance_day_fields Let_def)+

lemma apply_ops_signs:
  assumes "valid_ops item ops" and "purchase_deltas_nonpos item" and "return_deltas_nonneg item"
  shows "purchase_deltas_nonpos (apply_ops item ops) \<and> return_deltas_nonneg (apply_ops item ops)"
  using assms
proof (induction ops arbitrary: item)
  case Nil
  then show ?case by simp
next
  case (Cons x xs)
  from Cons.prems have v: "valid_op item x" and vs: "valid_ops (apply_op item x) xs"
    by simp_all
  have "purchase_deltas_nonpos (apply_op item x)" "return_deltas_nonneg (apply_op item x)"
    using Cons.prems(2,3) apply_op_signs [OF v] by simp_all
  with vs Cons.IH show ?case by simp
qed

subsubsection \<open>total_units_sold\<close>

lemma sum_list_guarded:
  "sum_list (concat (map (\<lambda>t. if P t then [f t] else []) ts)) = (\<Sum>t \<leftarrow> filter P ts. (f t :: int))"
  by (induction ts) simp_all

lemma total_units_sold_split:
  "total_units_sold items =
     (\<Sum>item \<leftarrow> items.
        \<Sum>t \<leftarrow> filter (\<lambda>t. transaction_type t = ''purchase'') (transactions item). - quantity_change t)
     - (\<Sum>item \<leftarrow> items.
        \<Sum>t \<leftarrow> filter (\<lambda>t. transaction_type t = ''return'') (transactions item). quantity_change t)"
proof -
  have a: "sum_list (concat (map (\<lambda>item. concat (map (\<lambda>t. if P t then [f t] else []) (transactions item))) xs))
        = (\<Sum>item \<leftarrow> xs. \<Sum>t \<leftarrow> filter P (transactions item). (f t :: int))"
    for P f and xs :: "StoreItem list"
    by (induction xs) (simp_all add: sum_list_guarded)
  show ?thesis
    unfolding total_units_sold_def by (simp only: a)
qed

lemma purchase_magnitudes_neg:
  assumes "purchase_deltas_nonpos item"
  shows "(\<Sum>t \<leftarrow> filter (\<lambda>t. transaction_type t = ''purchase'') (transactions item). - quantity_change t)
           = purchase_magnitudes item"
proof -
  have "map (\<lambda>t. - quantity_change t)
          (filter (\<lambda>t. transaction_type t = ''purchase'') (transactions item))
      = map (\<lambda>t. \<bar>quantity_change t\<bar>)
          (filter (\<lambda>t. transaction_type t = ''purchase'') (transactions item))"
    using assms by (intro map_cong refl) (auto simp add: purchase_deltas_nonpos_def list_all_iff)
  then show ?thesis by (simp only: purchase_magnitudes_def)
qed

lemma return_magnitudes_pos:
  assumes "return_deltas_nonneg item"
  shows "(\<Sum>t \<leftarrow> filter (\<lambda>t. transaction_type t = ''return'') (transactions item). quantity_change t)
           = return_magnitudes item"
proof -
  have "map (\<lambda>t. quantity_change t)
          (filter (\<lambda>t. transaction_type t = ''return'') (transactions item))
      = map (\<lambda>t. \<bar>quantity_change t\<bar>)
          (filter (\<lambda>t. transaction_type t = ''return'') (transactions item))"
    using assms by (intro map_cong refl) (auto simp add: return_deltas_nonneg_def list_all_iff)
  then show ?thesis by (simp only: return_magnitudes_def)
qed

lemma demo_ops_log:
  "map (\<lambda>t. (transaction_type t, quantity_change t)) (transactions (apply_ops demo_item demo_ops)) =
     [(''purchase'', - 5), (''return'', 2), (''replenish'', 3), (''purchase'', - 20)]"
  by (simp add: demo_ops_def demo_item_def new_StoreItem_def purchase_eq return_item_eq
      replenish_eq advance_day_fields Let_def)

lemma demo_ops_transactions:
  "transactions (apply_ops demo_item demo_ops) =
     [\<lparr>transaction_id = ''id-1'', storeitem_name = ''Baby Yoda Keychain'',
       location = ''Front Counter'', quantity_change = - 5, timestamp = demo_now,
       transaction_type = ''purchase''\<rparr>,
      \<lparr>transaction_id = ''id-2'', storeitem_name = ''Baby Yoda Keychain'',
       location = ''Front Counter'', quantity_change = 2, timestamp = demo_now,
       transaction_type = ''return''\<rparr>,
      \<lparr>transaction_id = ''id-3'', storeitem_name = ''Baby Yoda Keychain'',
       location = ''Front Counter'', quantity_change = 3, timestamp = demo_now,
       transaction_type = ''replenish''\<rparr>,
      \<lparr>transaction_id = ''id-4'', storeitem_name = ''Baby Yoda Keychain'',
       location = ''Front Counter'', quantity_change = - 20, timestamp = demo_now,
       transaction_type = ''purchase''\<rparr>]"
  by (simp add: demo_ops_def demo_item_def new_StoreItem_def purchase_eq return_item_eq
      replenish_eq advance_day_def Let_def split: sum.splits)

lemma demo_total: "total_units_sold [apply_ops demo_item demo_ops] = 23"
  by (simp add: total_units_sold_def demo_ops_transactions)

lemma demo_item2_transactions:
  "transactions (apply_ops demo_item2 demo_sale) =
     [\<lparr>transaction_id = ''id-5'', storeitem_name = ''iPhone 15 Case'',
       location = ''End Cap A'', quantity_change = - 7, timestamp = demo_now,
       transaction_type = ''purchase''\<rparr>]"
  by (simp add: demo_sale_def demo_item2_def new_StoreItem_def purchase_eq Let_def)

lemma demo_item_transactions:
  "transactions (apply_ops demo_item demo_sale) =
     [\<lparr>transaction_id = ''id-5'', storeitem_name = ''Baby Yoda Keychain'',
       location = ''Front Counter'', quantity_change = - 7, timestamp = demo_now,
       transaction_type = ''purchase''\<rparr>]"
  by (simp add: demo_sale_def demo_item_def new_StoreItem_def purchase_eq Let_def)

lemma refund_transactions:
  "transactions (apply_ops demo_item refund_sale) =
     [\<lparr>transaction_id = ''id-7'', storeitem_name = ''Baby Yoda Keychain'',
       location = ''Front Counter'', quantity_change = 10, timestamp = demo_now,
       transaction_type = ''purchase''\<rparr>]"
  by (simp add: refund_sale_def demo_item_def new_StoreItem_def purchase_eq Let_def)

lemma unsigned_store_values:
  "total_units_sold unsigned_store = - 3"
  "sum_list (map purchase_magnitudes unsigned_store) = 17"
  "sum_list (map return_magnitudes unsigned_store) = 0"
  by (simp_all add: total_units_sold_def purchase_magnitudes_def return_magnitudes_def
      unsigned_store_def refund_transactions demo_item2_transactions)

lemma demo_store_total: "total_units_sold demo_store = 30"
  by (simp add: total_units_sold_def demo_store_def demo_ops_transactions demo_item2_transactions)

text \<open>
  Without the sign convention the equation fails: \<^verbatim>\<open>purchase\<close> accepts a negative
  quantity and logs it as a purchase with a positive delta, which the sum counts negatively.
\<close>

theorem total_units_sold_gross_counterexample:
  "total_units_sold unsigned_store = - 3 \<and>
   sum_list (map purchase_magnitudes unsigned_store)
     - sum_list (map return_magnitudes unsigned_store) = 17 \<and>
   total_units_sold unsigned_store \<noteq>
     sum_list (map purchase_magnitudes unsigned_store)
       - sum_list (map return_magnitudes unsigned_store)"
  by (simp add: unsigned_store_values)

text \<open>
  C6. For every collection of items whose logs follow the sign convention of the data
  model (no purchase with a positive delta, no return with a negative one; operations
  with \<open>qty \<ge> 1\<close> keep it), \<open>total_units_sold\<close> is the sum over the items of the
  magnitudes of their purchase deltas minus the sum over the items of the magnitudes of
  their return deltas; replenishments do not occur in it.
\<close>

theorem total_units_sold_gross:
  assumes "list_all purchase_deltas_nonpos items" and "list_all return_deltas_nonneg items"
  shows "total_units_sold items =
           (\<Sum>item \<leftarrow> items. purchase_magnitudes item) - (\<Sum>item \<leftarrow> items. return_magnitudes item)"
proof -
  have p: "map (\<lambda>item. \<Sum>t \<leftarrow> filter (\<lambda>t. transaction_type t = ''purchase'') (transactions item).
                    - quantity_change t) items = map purchase_magnitudes items"
    using assms(1) by (intro map_cong refl purchase_magnitudes_neg) (simp add: list_all_iff)
  have r: "map (\<lambda>item. \<Sum>t \<leftarrow> filter (\<lambda>t. transaction_type t = ''return'') (transactions item).
                    quantity_change t) items = map return_magnitudes items"
    using assms(2) by (intro map_cong refl return_magnitudes_pos) (simp add: list_all_iff)
  show ?thesis
    unfolding total_units_sold_split by (simp only: p r)
qed


theorem total_units_sold_gross_witness:
  "list_all purchase_deltas_nonpos demo_store \<and>
   list_all return_deltas_nonneg demo_store \<and>
   total_units_sold demo_store =
     (\<Sum>item \<leftarrow> demo_store. purchase_magnitudes item)
     - (\<Sum>item \<leftarrow> demo_store. return_magnitudes item)"
proof -
  have a: "list_all purchase_deltas_nonpos demo_store"
    by (simp add: demo_store_def purchase_deltas_nonpos_def demo_ops_transactions
        demo_item2_transactions)
  have b: "list_all return_deltas_nonneg demo_store"
    by (simp add: demo_store_def return_deltas_nonneg_def demo_ops_transactions
        demo_item2_transactions)
  show ?thesis
    using a b total_units_sold_gross [OF a b] by simp
qed



subsubsection \<open>best_location\<close>

lemma foldl_max_first:
  fixes key :: "'a \<Rightarrow> int"
  shows "\<exists>pre post.
           x # rest = pre @ foldl (\<lambda>best y. if key y > key best then y else best) x rest # post \<and>
           (\<forall>y \<in> set pre. key y < key (foldl (\<lambda>best y. if key y > key best then y else best) x rest)) \<and>
           (\<forall>y \<in> set post. key y \<le> key (foldl (\<lambda>best y. if key y > key best then y else best) x rest))"
proof (induction rest rule: rev_induct)
  case Nil
  have "[x] = [] @ x # []" by simp
  then show ?case by fastforce
next
  case (snoc y ys)
  let ?step = "\<lambda>best y. if key y > key best then y else best"
  let ?r = "foldl ?step x ys"
  from snoc obtain pre post where e: "x # ys = pre @ ?r # post"
    and lt: "\<forall>z \<in> set pre. key z < key ?r" and le: "\<forall>z \<in> set post. key z \<le> key ?r"
    by blast
  show ?case
  proof (cases "key y > key ?r")
    case True
    then have f: "foldl ?step x (ys @ [y]) = y" by simp
    have all: "\<forall>z \<in> set (x # ys). key z \<le> key ?r"
      unfolding e using lt le by auto
    have "x # ys @ [y] = (x # ys) @ y # []" by simp
    moreover have "\<forall>z \<in> set (x # ys). key z < key y" using all True by fastforce
    ultimately show ?thesis unfolding f by (metis empty_iff empty_set)
  next
    case False
    then have f: "foldl ?step x (ys @ [y]) = ?r" by simp
    have "x # ys @ [y] = pre @ ?r # (post @ [y])" using e by simp
    moreover have "\<forall>z \<in> set (post @ [y]). key z \<le> key ?r" using le False by auto
    ultimately show ?thesis unfolding f using lt by blast
  qed
qed

lemma max_key_first:
  fixes key :: "'a \<Rightarrow> int"
  assumes "xs \<noteq> []"
  shows "\<exists>r pre post. max_key xs key = Inr r \<and> xs = pre @ r # post \<and>
           (\<forall>y \<in> set pre. key y < key r) \<and> (\<forall>y \<in> set xs. key y \<le> key r)"
proof -
  from assms obtain x rest where xs: "xs = x # rest" by (cases xs) auto
  let ?r = "foldl (\<lambda>best y. if key y > key best then y else best) x rest"
  from foldl_max_first [of x rest key] obtain pre post where e: "x # rest = pre @ ?r # post"
    and lt: "\<forall>y \<in> set pre. key y < key ?r" and le: "\<forall>y \<in> set post. key y \<le> key ?r"
    by blast
  have m: "max_key xs key = Inr ?r" by (simp add: max_key_def xs)
  have "\<forall>y \<in> set xs. key y \<le> key ?r"
    unfolding xs e using lt le by auto
  with m e lt show ?thesis unfolding xs by blast
qed

lemma location_key_split:
  "location_key items loc =
     (\<Sum>item \<leftarrow> filter (\<lambda>i. StoreItem.location i = loc) items.
        \<Sum>t \<leftarrow> filter (\<lambda>t. transaction_type t = ''purchase'') (transactions item). - quantity_change t)"
  unfolding location_key_def by (induction items) (simp_all add: sum_list_guarded)

lemma location_key_gross:
  assumes "list_all purchase_deltas_nonpos items"
  shows "location_key items loc = gross_purchase_volume items loc"
proof -
  have "map (\<lambda>item. \<Sum>t \<leftarrow> filter (\<lambda>t. transaction_type t = ''purchase'') (transactions item).
                    - quantity_change t) (filter (\<lambda>i. StoreItem.location i = loc) items)
        = map purchase_magnitudes (filter (\<lambda>i. StoreItem.location i = loc) items)"
    using assms by (intro map_cong refl purchase_magnitudes_neg) (simp add: list_all_iff)
  then show ?thesis
    unfolding location_key_split gross_purchase_volume_def by (simp only:)
qed

lemma apply_op_location: "StoreItem.location (apply_op item x) = StoreItem.location item"
  by (cases x) (simp_all add: purchase_eq return_item_eq replenish_eq advance_day_def Let_def
      split: sum.splits)

lemma apply_ops_location: "StoreItem.location (apply_ops item ops) = StoreItem.location item"
  by (induction ops arbitrary: item) (simp_all add: apply_op_location)

lemma demo_locations:
  "StoreItem.location demo_item = ''Front Counter''"
  "StoreItem.location demo_item2 = ''End Cap A''"
  by (simp_all add: demo_item_def demo_item2_def new_StoreItem_def)

lemma demo_best_location: "best_location remdups demo_store = Inr ''Front Counter''"
  by (simp add: best_location_def max_key_def location_key_def demo_store_def
      apply_ops_location demo_locations demo_ops_transactions demo_item2_transactions)

text \<open>
  On a tie the result follows the order in which the set of locations is iterated.
\<close>

lemma tied_best_location:
  "best_location remdups tied_store = Inr ''Front Counter''"
  "best_location (rev \<circ> remdups) tied_store = Inr ''End Cap A''"
  by (simp_all add: best_location_def max_key_def location_key_def tied_store_def
      apply_ops_location demo_locations demo_item_transactions demo_item2_transactions)

lemma unsigned_store_volumes:
  "gross_purchase_volume unsigned_store ''End Cap A'' = 7"
  "gross_purchase_volume unsigned_store ''Front Counter'' = 10"
  by (simp_all add: gross_purchase_volume_def purchase_magnitudes_def unsigned_store_def
      apply_ops_location demo_locations refund_transactions demo_item2_transactions)

lemma unsigned_store_best:
  "best_location remdups unsigned_store = Inr ''End Cap A''"
  "best_location (rev \<circ> remdups) unsigned_store = Inr ''End Cap A''"
  by (simp_all add: best_location_def max_key_def location_key_def unsigned_store_def
      apply_ops_location demo_locations refund_transactions demo_item2_transactions)

text \<open>
  Without the sign convention for purchases the result need not have the largest gross
  volume: a purchase logged with a positive delta lowers the key of its location, in
  either iteration order of the two locations.
\<close>

theorem best_location_maximal_counterexample:
  "best_location remdups unsigned_store = Inr ''End Cap A'' \<and>
   best_location (rev \<circ> remdups) unsigned_store = Inr ''End Cap A'' \<and>
   ''Front Counter'' \<in> set (map StoreItem.location unsigned_store) \<and>
   gross_purchase_volume unsigned_store ''End Cap A''
     < gross_purchase_volume unsigned_store ''Front Counter''"
  by (simp add: unsigned_store_best unsigned_store_volumes)
    (simp add: unsigned_store_def apply_ops_location demo_locations)

text \<open>
  C9. For every non-empty collection of items whose purchase deltas follow the sign
  convention (none is positive), with any iteration order of the set of their locations,
  \<open>best_location\<close> does not raise and returns one of the items' locations, whose gross
  purchase volume (the magnitudes of the purchase deltas of all items there, returns not
  deducted) is maximal among the locations; among several maximal locations it is the
  first in the iteration order.
\<close>

theorem best_location_maximal:
  assumes "items \<noteq> []"
    and "is_set_iteration set_iter (map StoreItem.location items)"
    and "list_all purchase_deltas_nonpos items"
  shows "\<exists>loc pre post.
           best_location set_iter items = Inr loc \<and>
           loc \<in> set (map StoreItem.location items) \<and>
           (\<forall>l \<in> set (map StoreItem.location items).
              gross_purchase_volume items l \<le> gross_purchase_volume items loc) \<and>
           set_iter (map StoreItem.location items) = pre @ loc # post \<and>
           (\<forall>l \<in> set pre. gross_purchase_volume items l < gross_purchase_volume items loc)"
proof -
  let ?locs = "map StoreItem.location items"
  have s: "set (set_iter ?locs) = set ?locs"
    using assms(2) by (simp add: is_set_iteration_def)
  have "set ?locs \<noteq> {}" using assms(1) by simp
  then have ne: "set_iter ?locs \<noteq> []" using s by auto
  from max_key_first [OF ne, of "location_key items"]
  obtain r pre post where m: "max_key (set_iter ?locs) (location_key items) = Inr r"
    and e: "set_iter ?locs = pre @ r # post"
    and lt: "\<forall>y \<in> set pre. location_key items y < location_key items r"
    and le: "\<forall>y \<in> set (set_iter ?locs). location_key items y \<le> location_key items r"
    by blast
  have k: "location_key items = gross_purchase_volume items"
    using location_key_gross [OF assms(3)] by (intro ext)
  have "r \<in> set (set_iter ?locs)" unfolding e by simp
  then have mem: "r \<in> set ?locs" using s by simp
  have b: "best_location set_iter items = Inr r"
    using m by (simp add: best_location_def)
  from b mem le lt e show ?thesis
    unfolding k s by blast
qed


theorem best_location_maximal_witness:
  "demo_store \<noteq> [] \<and>
   is_set_iteration remdups (map StoreItem.location demo_store) \<and>
   list_all purchase_deltas_nonpos demo_store \<and>
   (\<exists>loc pre post.
      best_location remdups demo_store = Inr loc \<and>
      loc \<in> set (map StoreItem.location demo_store) \<and>
      (\<forall>l \<in> set (map StoreItem.location demo_store).
         gross_purchase_volume demo_store l \<le> gross_purchase_volume demo_store loc) \<and>
      remdups (map StoreItem.location demo_store) = pre @ loc # post \<and>
      (\<forall>l \<in> set pre. gross_purchase_volume demo_store l < gross_purchase_volume demo_store loc))"
proof -
  have a: "demo_store \<noteq> []" by (simp add: demo_store_def)
  have b: "is_set_iteration remdups (map StoreItem.location demo_store)"
    by (simp add: is_set_iteration_def)
  have c: "list_all purchase_deltas_nonpos demo_store"
    by (simp add: demo_store_def purchase_deltas_nonpos_def demo_ops_transactions
        demo_item2_transactions)
  show ?thesis
    using a b c best_location_maximal [OF a b c] by simp
qed

subsubsection \<open>generate_store\<close>







lemma new_StoreItem_signs:
  "purchase_deltas_nonpos (new_StoreItem n u q c l s)"
  "return_deltas_nonneg (new_StoreItem n u q c l s)"
  by (simp_all add: purchase_deltas_nonpos_def return_deltas_nonneg_def new_StoreItem_def)



lemma demo_generate_store:
  "\<exists>items. generate_store demo_shelf_draw demo_sale_draw = Inr items \<and>
           map quantity items = [9, 11, 15, 14, 15] \<and>
           map (\<lambda>i. (microseconds (date_displayed (shelf_tracking i))
                       - microseconds (date_received (shelf_tracking i))) div day_us) items
             = [10, 4, 1, 5, 1]"
  by (simp add: generate_store_def random_shelf_tracking_def bind_def randint_def sub_days_def
      microseconds_datetime_of datetime_max_def demo_shelf_draw_def demo_sale_draw_def
      demo_now_def new_StoreItem_def purchase_eq Let_def day_us_def)







end
